theory Spec2Isabelle
  imports Complex_Main
begin

section \<open>Hypothesis testing notebook: the model\<close>

text \<open>
  The repository is one notebook, \<^verbatim>\<open>Hypothesis_Testing_II.ipynb\<close>. Its code cells compute
  the summary of a sample, a test statistic, a p-value and the threshold the p-value is
  shown against. Each cell is modelled as a function of the variables it reads; cells
  are counted among the code cells, in the order of the notebook. The two literals of
  the notebook, the hypothesised mean \<^verbatim>\<open>98.6\<close> and the level \<^verbatim>\<open>alpha = 1-0.95\<close>, are
  the arguments \<open>mu0\<close> and \<open>alpha\<close>.
\<close>

subsection \<open>Numbers\<close>

text \<open>
  The notebook computes in numpy doubles. A value of the model is the exact real number
  of a finite result, or one of the three special values that numpy returns (with a
  warning) where Python's own floats would raise. Rounding and the sign of zero are not
  modelled.
\<close>

datatype fl = Fin real | PInf | MInf | NaN

text \<open>True division of numpy scalars: \<^verbatim>\<open>x / 0\<close> is an infinity, \<^verbatim>\<open>0 / 0\<close> is NaN.\<close>

fun fl_div :: "fl \<Rightarrow> fl \<Rightarrow> fl" where
  "fl_div NaN y = NaN"
| "fl_div x NaN = NaN"
| "fl_div (Fin a) (Fin b) =
     (if b \<noteq> 0 then Fin (a / b)
      else if a = 0 then NaN
      else if 0 < a then PInf else MInf)"
| "fl_div (Fin a) PInf = Fin 0"
| "fl_div (Fin a) MInf = Fin 0"
| "fl_div PInf (Fin b) = (if 0 \<le> b then PInf else MInf)"
| "fl_div MInf (Fin b) = (if 0 \<le> b then MInf else PInf)"
| "fl_div PInf PInf = NaN"
| "fl_div PInf MInf = NaN"
| "fl_div MInf PInf = NaN"
| "fl_div MInf MInf = NaN"

text \<open>\<^verbatim>\<open>np.sqrt(n)\<close> for the length \<open>n\<close> of a sample.\<close>

definition np_sqrt :: "nat \<Rightarrow> fl" where
  "np_sqrt k = Fin (sqrt (real k))"

text \<open>\<^verbatim>\<open>np.abs(x)\<close> and \<^verbatim>\<open>abs(x)\<close>.\<close>

fun np_abs :: "fl \<Rightarrow> fl" where
  "np_abs (Fin a) = Fin \<bar>a\<bar>"
| "np_abs PInf = PInf"
| "np_abs MInf = PInf"
| "np_abs NaN = NaN"

text \<open>\<^verbatim>\<open>-x\<close>.\<close>

fun fl_neg :: "fl \<Rightarrow> fl" where
  "fl_neg (Fin a) = Fin (- a)"
| "fl_neg PInf = MInf"
| "fl_neg MInf = PInf"
| "fl_neg NaN = NaN"

text \<open>\<^verbatim>\<open>2 * x\<close>.\<close>

fun fl_twice :: "fl \<Rightarrow> fl" where
  "fl_twice (Fin a) = Fin (2 * a)"
| "fl_twice PInf = PInf"
| "fl_twice MInf = MInf"
| "fl_twice NaN = NaN"

text \<open>
  The comparisons \<^verbatim>\<open>x <= c\<close>, \<^verbatim>\<open>x >= c\<close> and \<^verbatim>\<open>x < y\<close>; every comparison with NaN is
  false.
\<close>

fun fl_le :: "fl \<Rightarrow> real \<Rightarrow> bool" where
  "fl_le (Fin a) c = (a \<le> c)"
| "fl_le PInf c = False"
| "fl_le MInf c = True"
| "fl_le NaN c = False"


fun fl_less :: "fl \<Rightarrow> fl \<Rightarrow> bool" where
  "fl_less (Fin a) (Fin b) = (a < b)"
| "fl_less (Fin a) PInf = True"
| "fl_less MInf (Fin b) = True"
| "fl_less MInf PInf = True"
| "fl_less x y = False"

text \<open>A value that is a probability: a finite number of the interval from 0 to 1.\<close>

fun is_probability :: "fl \<Rightarrow> bool" where
  "is_probability (Fin a) = (0 \<le> a \<and> a \<le> 1)"
| "is_probability x = False"

subsection \<open>The library functions the cells call\<close>

text \<open>
  \<^verbatim>\<open>statistics.mean\<close> and \<^verbatim>\<open>statistics.stdev\<close> of the Python standard library (3.11, the
  kernel of the notebook), on a sample of finite numbers. The first raises
  \<^verbatim>\<open>StatisticsError\<close> on an empty sample, the second on a sample of fewer than two
  values. \<^verbatim>\<open>stdev\<close> is the square root of the sample variance (divisor \<open>n - 1\<close>); the
  library computes the variance in exact fractions and rounds its square root to a
  double once, which raises \<^verbatim>\<open>OverflowError\<close> where the root is at least
  \<^verbatim>\<open>2**1024 - 2**970\<close>, the least number that rounds beyond the largest double. The mean of
  finite doubles lies between them and never overflows. The rounding of the two
  results is not modelled.

  A sample is a list of reals here, so every entry is a finite number. An entry that
  is NaN or an infinity (a blank cell of the table) is outside the model: on such a
  sample of two or more values \<^verbatim>\<open>stdev\<close> raises \<^verbatim>\<open>AttributeError\<close>.
\<close>

datatype error = StatisticsError | OverflowError

definition float_overflow :: real where
  "float_overflow = 2 ^ 1024 - 2 ^ 970"

definition mean :: "real list \<Rightarrow> error + real" where
  "mean xs = (if length xs < 1 then Inl StatisticsError
              else Inr (sum_list xs / real (length xs)))"

definition stdev :: "real list \<Rightarrow> error + real" where
  "stdev xs =
     (if length xs < 2 then Inl StatisticsError
      else let c = sum_list xs / real (length xs);
               r = sqrt ((\<Sum>x\<leftarrow>xs. (x - c)\<^sup>2) / real (length xs - 1))
           in if float_overflow \<le> r then Inl OverflowError else Inr r)"

text \<open>
  \<^verbatim>\<open>scipy.stats.norm.pdf\<close>, the density of the standard normal distribution. It is 0 at
  both infinities and NaN at NaN.
\<close>

definition norm_pdf_real :: "real \<Rightarrow> real" where
  "norm_pdf_real x = exp (- x\<^sup>2 / 2) / sqrt (2 * pi)"

fun norm_pdf :: "fl \<Rightarrow> fl" where
  "norm_pdf (Fin a) = Fin (norm_pdf_real a)"
| "norm_pdf PInf = Fin 0"
| "norm_pdf MInf = Fin 0"
| "norm_pdf NaN = NaN"

text \<open>
  \<^verbatim>\<open>scipy.stats.t.sf(x, df)\<close>, the survival function of Student's t distribution with
  \<open>df\<close> degrees of freedom. The library is not part of the repository: the cells are
  parameterised by the function \<open>sf\<close> of real arguments that it evaluates. Around it,
  scipy returns NaN for \<open>df \<le> 0\<close> and for NaN, 0 at \<open>+\<infinity>\<close> and 1 at \<open>-\<infinity>\<close>.
\<close>

fun t_sf :: "(real \<Rightarrow> int \<Rightarrow> real) \<Rightarrow> fl \<Rightarrow> int \<Rightarrow> fl" where
  "t_sf sf x df =
     (if df \<le> 0 then NaN
      else case x of
        Fin a \<Rightarrow> Fin (sf a df)
      | PInf \<Rightarrow> Fin 0
      | MInf \<Rightarrow> Fin 1
      | NaN \<Rightarrow> NaN)"

text \<open>
  For an integer number of degrees of freedom the survival function of Student's t
  has a closed form (Abramowitz and Stegun, 26.7.3 and 26.7.4). With
  \<open>u = df / (df + x\<^sup>2)\<close>, for even \<open>df\<close>
  \<open>sf x = 1/2 - x / (2 sqrt (df + x\<^sup>2)) * (\<Sum>j < df/2. c\<^sub>j u\<^sup>j)\<close> with
  \<open>c\<^sub>j = (1 \<cdot> 3 \<cdots> (2j-1)) / (2 \<cdot> 4 \<cdots> 2j)\<close>, and for odd \<open>df\<close>
  \<open>sf x = 1/2 - (arctan (x / sqrt df) + x sqrt df / (df + x\<^sup>2) * (\<Sum>j < (df-1)/2. d\<^sub>j u\<^sup>j)) / \<pi>\<close>
  with \<open>d\<^sub>j = (2 \<cdot> 4 \<cdots> 2j) / (3 \<cdot> 5 \<cdots> (2j+1))\<close>. This is the function that
  \<^verbatim>\<open>stats.t.sf\<close> approximates in doubles; it is what \<open>sf\<close> is where a statement is
  about the numbers a cell shows.
\<close>

fun t_coeff_even :: "nat \<Rightarrow> real" where
  "t_coeff_even 0 = 1"
| "t_coeff_even (Suc j) = t_coeff_even j * (2 * real j + 1) / (2 * real j + 2)"

fun t_coeff_odd :: "nat \<Rightarrow> real" where
  "t_coeff_odd 0 = 1"
| "t_coeff_odd (Suc j) = t_coeff_odd j * (2 * real j + 2) / (2 * real j + 3)"

definition student_t_sf :: "real \<Rightarrow> int \<Rightarrow> real" where
  "student_t_sf x df =
     (let v = real_of_int df; u = v / (v + x\<^sup>2)
      in if even df
         then 1 / 2 - x / (2 * sqrt (v + x\<^sup>2)) * (\<Sum>j < nat (df div 2). t_coeff_even j * u ^ j)
         else 1 / 2 - (arctan (x / sqrt v)
                       + x * sqrt v / (v + x\<^sup>2) * (\<Sum>j < nat ((df - 1) div 2). t_coeff_odd j * u ^ j))
                      / pi)"

subsection \<open>The cells\<close>

text \<open>
  Cell 4: \<^verbatim>\<open>n = len(...)\<close>, \<^verbatim>\<open>m = mean(...)\<close>, \<^verbatim>\<open>s = stdev(...)\<close>,
  \<^verbatim>\<open>err = s/np.sqrt(n)\<close>. The sample is the list of the selected temperatures.
\<close>

definition err :: "real \<Rightarrow> nat \<Rightarrow> fl" where
  "err s n = fl_div (Fin s) (np_sqrt n)"

definition sample_summary :: "real list \<Rightarrow> error + (nat \<times> real \<times> real)" where
  "sample_summary xs =
     (case mean xs of
        Inl e \<Rightarrow> Inl e
      | Inr m \<Rightarrow> (case stdev xs of
                   Inl e \<Rightarrow> Inl e
                 | Inr s \<Rightarrow> Inr (length xs, m, s)))"

text \<open>
  What a test cell shows: the score, the p-value and the value it prints as
  \<^verbatim>\<open>alpha-value\<close>, the threshold for the p-value.
\<close>

record test_result =
  statistic :: fl
  pValue :: fl
  alpha_value :: real

text \<open>
  Cells 5, 6 and 7 start with the same line, \<^verbatim>\<open>t_score = (m - 98.6) / err\<close> and
  \<^verbatim>\<open>z_score = (m - 98.6) / err\<close>.
\<close>

definition t_score :: "real \<Rightarrow> real \<Rightarrow> fl \<Rightarrow> fl" where
  "t_score m mu0 e = fl_div (Fin (m - mu0)) e"

definition z_score :: "real \<Rightarrow> real \<Rightarrow> fl \<Rightarrow> fl" where
  "z_score m mu0 e = fl_div (Fin (m - mu0)) e"

text \<open>Cell 5: \<^verbatim>\<open>p_value = 2 * stats.t.sf(np.abs(t_score), n-1)\<close>.\<close>

definition p_value_t :: "(real \<Rightarrow> int \<Rightarrow> real) \<Rightarrow> fl \<Rightarrow> nat \<Rightarrow> fl" where
  "p_value_t sf t n = fl_twice (t_sf sf (np_abs t) (int n - 1))"

text \<open>Cell 6: \<^verbatim>\<open>p_value = 2 * stats.norm.pdf(abs(z_score))\<close>.\<close>

definition p_value_z :: "fl \<Rightarrow> fl" where
  "p_value_z z = fl_twice (norm_pdf (np_abs z))"

text \<open>Cell 7: \<^verbatim>\<open>p_value = stats.t.sf(t_score, n-1)\<close>.\<close>

definition p_value_right :: "(real \<Rightarrow> int \<Rightarrow> real) \<Rightarrow> fl \<Rightarrow> nat \<Rightarrow> fl" where
  "p_value_right sf t n = t_sf sf t (int n - 1)"

text \<open>
  The left-sided variant that the last markdown cell describes: \<^verbatim>\<open>alpha\<close> instead of
  \<^verbatim>\<open>1-alpha\<close> and \<^verbatim>\<open>stats.t.sf(-t_score, n-1)\<close>.
\<close>

definition p_value_left :: "(real \<Rightarrow> int \<Rightarrow> real) \<Rightarrow> fl \<Rightarrow> nat \<Rightarrow> fl" where
  "p_value_left sf t n = t_sf sf (fl_neg t) (int n - 1)"

text \<open>
  The cells as functions of the sample summary. Cells 5 and 6 print \<^verbatim>\<open>alpha\<close> as the
  alpha-value, cell 7 prints \<^verbatim>\<open>1-alpha\<close> (\<^verbatim>\<open># right tail\<close>). In the words of the
  specification, cell 5 is the evaluation with the distribution StudentT and the tail
  TwoSided, cell 6 the one with Normal and TwoSided, cell 7 the one with StudentT and
  RightTailed; the notebook has no one-sided z-test.
\<close>

definition two_sided_t_test ::
  "(real \<Rightarrow> int \<Rightarrow> real) \<Rightarrow> nat \<Rightarrow> real \<Rightarrow> real \<Rightarrow> real \<Rightarrow> real \<Rightarrow> test_result" where
  "two_sided_t_test sf n m s mu0 alpha =
     (let t = t_score m mu0 (err s n)
      in \<lparr>statistic = t, pValue = p_value_t sf t n, alpha_value = alpha\<rparr>)"

definition two_sided_z_test :: "nat \<Rightarrow> real \<Rightarrow> real \<Rightarrow> real \<Rightarrow> real \<Rightarrow> test_result" where
  "two_sided_z_test n m s mu0 alpha =
     (let z = z_score m mu0 (err s n)
      in \<lparr>statistic = z, pValue = p_value_z z, alpha_value = alpha\<rparr>)"

definition right_tailed_t_test ::
  "(real \<Rightarrow> int \<Rightarrow> real) \<Rightarrow> nat \<Rightarrow> real \<Rightarrow> real \<Rightarrow> real \<Rightarrow> real \<Rightarrow> test_result" where
  "right_tailed_t_test sf n m s mu0 alpha =
     (let t = t_score m mu0 (err s n)
      in \<lparr>statistic = t, pValue = p_value_right sf t n, alpha_value = 1 - alpha\<rparr>)"

definition left_tailed_t_test ::
  "(real \<Rightarrow> int \<Rightarrow> real) \<Rightarrow> nat \<Rightarrow> real \<Rightarrow> real \<Rightarrow> real \<Rightarrow> real \<Rightarrow> test_result" where
  "left_tailed_t_test sf n m s mu0 alpha =
     (let t = t_score m mu0 (err s n)
      in \<lparr>statistic = t, pValue = p_value_left sf t n, alpha_value = alpha\<rparr>)"

text \<open>
  No cell computes a decision: the notebook states it in its markdown. For the
  two-sided cells, and for the left-sided variant, it is the rule of the first markdown
  cell, which the text after these cells applies: the null hypothesis is rejected if
  the p-value is at most the alpha-value, and accepted otherwise.
\<close>

definition reject :: "test_result \<Rightarrow> bool" where
  "reject r = fl_le (pValue r) (alpha_value r)"


text \<open>
  The cells run in order on a sample: cell 4 first, which raises where \<^verbatim>\<open>mean\<close> or
  \<^verbatim>\<open>stdev\<close> raises, then the test cell on its summary.
\<close>

definition notebook_t_test ::
  "(real \<Rightarrow> int \<Rightarrow> real) \<Rightarrow> real list \<Rightarrow> real \<Rightarrow> real \<Rightarrow> error + test_result" where
  "notebook_t_test sf xs mu0 alpha =
     (case sample_summary xs of
        Inl e \<Rightarrow> Inl e
      | Inr (n, m, s) \<Rightarrow> Inr (two_sided_t_test sf n m s mu0 alpha))"

definition notebook_z_test :: "real list \<Rightarrow> real \<Rightarrow> real \<Rightarrow> error + test_result" where
  "notebook_z_test xs mu0 alpha =
     (case sample_summary xs of
        Inl e \<Rightarrow> Inl e
      | Inr (n, m, s) \<Rightarrow> Inr (two_sided_z_test n m s mu0 alpha))"

definition notebook_right_tailed_test ::
  "(real \<Rightarrow> int \<Rightarrow> real) \<Rightarrow> real list \<Rightarrow> real \<Rightarrow> real \<Rightarrow> error + test_result" where
  "notebook_right_tailed_test sf xs mu0 alpha =
     (case sample_summary xs of
        Inl e \<Rightarrow> Inl e
      | Inr (n, m, s) \<Rightarrow> Inr (right_tailed_t_test sf n m s mu0 alpha))"

subsection \<open>Approximate values\<close>

text \<open>A finite value strictly between two bounds: how \<open>x \<approx> c\<close> is stated.\<close>

fun fl_between :: "real \<Rightarrow> fl \<Rightarrow> real \<Rightarrow> bool" where
  "fl_between a (Fin x) b = (a < x \<and> x < b)"
| "fl_between a y b = False"

text \<open>
  A checker for the partial sums \<open>\<Sum>j<k. c\<^sub>j u\<^sup>j\<close> of the closed form for even degrees of
  freedom, in integer fixed-point arithmetic with denominator \<open>N\<close>. From bounds
  \<open>ul / N \<le> u \<le> uh / N\<close> it carries bounds \<open>tlo\<close>, \<open>thi\<close> of the term
  \<open>c\<^sub>j u\<^sup>j\<close> and bounds \<open>alo\<close>, \<open>ahi\<close> of the sum so far; each term comes from the one
  before by \<open>c\<^sub>j\<^sub>+\<^sub>1 u\<^sup>j\<^sup>+\<^sup>1 = c\<^sub>j u\<^sup>j \<cdot> u \<cdot> (2j+1) / (2j+2)\<close>, rounded down in the lower
  bound and up in the upper one.
\<close>

fun series_bounds ::
  "int \<Rightarrow> int \<Rightarrow> int \<Rightarrow> nat \<Rightarrow> int \<Rightarrow> int \<Rightarrow> int \<Rightarrow> int \<Rightarrow> int \<Rightarrow> int \<times> int" where
  "series_bounds N ul uh 0 j tlo thi alo ahi = (alo, ahi)"
| "series_bounds N ul uh (Suc k) j tlo thi alo ahi =
     series_bounds N ul uh k (j + 1)
       ((tlo * ul * (2 * j + 1)) div (N * (2 * j + 2)))
       (- ((- (thi * uh * (2 * j + 1))) div (N * (2 * j + 2))))
       (alo + tlo) (ahi + thi)"

section \<open>Bounds on the constants\<close>

text \<open>Sine is bounded by its Taylor polynomials, with the remainder of Maclaurin's formula.\<close>

lemma sin_upper_5: "sin (x::real) \<le> x - x^3 / 6 + \<bar>x\<bar>^5 / 120"
proof -
  have "\<bar>sin x - (\<Sum>m<5. sin_coeff m * x ^ m)\<bar> \<le> inverse (fact 5) * \<bar>x\<bar> ^ 5"
    by (rule Maclaurin_sin_bound)
  moreover have "(\<Sum>m<5. sin_coeff m * x ^ m) = x - x^3 / 6"
    by (simp add: eval_nat_numeral sin_coeff_Suc cos_coeff_Suc field_simps)
  moreover have "inverse (fact 5 :: real) = 1 / 120"
    by (simp add: fact_numeral)
  ultimately have "\<bar>sin x - (x - x^3 / 6)\<bar> \<le> \<bar>x\<bar>^5 / 120"
    by simp
  then show ?thesis by linarith
qed

lemma sin_lower_7: "x - x^3 / 6 + x^5 / 120 - \<bar>x\<bar>^7 / 5040 \<le> sin (x::real)"
proof -
  have "\<bar>sin x - (\<Sum>m<7. sin_coeff m * x ^ m)\<bar> \<le> inverse (fact 7) * \<bar>x\<bar> ^ 7"
    by (rule Maclaurin_sin_bound)
  moreover have "(\<Sum>m<7. sin_coeff m * x ^ m) = x - x^3 / 6 + x^5 / 120"
    by (simp add: eval_nat_numeral sin_coeff_Suc cos_coeff_Suc field_simps)
  moreover have "inverse (fact 7 :: real) = 1 / 5040"
    by (simp add: fact_numeral)
  ultimately have "\<bar>sin x - (x - x^3 / 6 + x^5 / 120)\<bar> \<le> \<bar>x\<bar>^7 / 5040"
    by simp
  then show ?thesis by linarith
qed

lemma pi_gt_3141: "3.141 < pi"
proof (rule ccontr)
  assume "\<not> 3.141 < pi"
  then have le: "pi / 6 \<le> 0.5235" by simp
  have "sin (pi / 6) \<le> sin (0.5235 :: real)"
    using le pi_ge_two by (intro sin_monotone_2pi_le) auto
  moreover have "sin (0.5235 :: real) < 1 / 2"
    using sin_upper_5 [of "0.5235"] by (simp add: power_divide)
  ultimately show False by (simp add: sin_30)
qed

lemma pi_lt_3142: "pi < 3.142"
proof (rule ccontr)
  assume "\<not> pi < 3.142"
  then have le: "0.52366 \<le> pi / 6" by simp
  have "sin (0.52366 :: real) \<le> sin (pi / 6)"
    using le pi_ge_two by (intro sin_monotone_2pi_le) auto
  moreover have "1 / 2 < sin (0.52366 :: real)"
    using sin_lower_7 [of "0.52366"] by (simp add: power_divide)
  ultimately show False by (simp add: sin_30)
qed

text \<open>The peak of the normal density, \<open>1 / sqrt (2 \<pi>)\<close>, to four places.\<close>

lemma sqrt_two_pi_bounds: "2.5063 < sqrt (2 * pi)" "sqrt (2 * pi) < 2.5068"
proof -
  have "(2.5063::real)\<^sup>2 < 2 * pi"
    using pi_gt_3141 by (simp add: power2_eq_square)
  then show "2.5063 < sqrt (2 * pi)"
    by (rule real_less_rsqrt)
  have "2 * pi < (2.5068::real)\<^sup>2"
    using pi_lt_3142 by (simp add: power2_eq_square)
  then show "sqrt (2 * pi) < 2.5068"
    by (intro real_less_lsqrt) auto
qed

lemma norm_pdf_real_pos: "0 < norm_pdf_real x"
  by (simp add: norm_pdf_real_def)

lemma norm_pdf_real_le: "norm_pdf_real x \<le> 1 / sqrt (2 * pi)"
proof -
  have "exp (- x\<^sup>2 / 2) \<le> 1" by simp
  then show ?thesis
    unfolding norm_pdf_real_def by (intro divide_right_mono) auto
qed

lemma norm_pdf_real_0: "norm_pdf_real 0 = 1 / sqrt (2 * pi)"
  by (simp add: norm_pdf_real_def)

lemma norm_pdf_peak_bounds: "0.7978 < 2 / sqrt (2 * pi)" "2 / sqrt (2 * pi) < 0.798"
proof -
  have pos: "0 < sqrt (2 * pi)" by simp
  show "0.7978 < 2 / sqrt (2 * pi)"
    using sqrt_two_pi_bounds(2) pos by (simp add: field_simps)
  show "2 / sqrt (2 * pi) < 0.798"
    using sqrt_two_pi_bounds(1) pos by (simp add: field_simps)
qed

text \<open>The threshold of \<^verbatim>\<open>OverflowError\<close> lies between \<open>2^1023\<close> and \<open>2^1024\<close>.\<close>

lemma float_overflow_bounds: "2 ^ 1023 \<le> float_overflow" "float_overflow < 2 ^ 1024"
proof -
  have a: "(2::real) ^ 970 \<le> 2 ^ 1023"
    by (rule power_increasing) simp_all
  have b: "(2::real) ^ 1024 = 2 * 2 ^ 1023"
    by simp
  show "2 ^ 1023 \<le> float_overflow"
    unfolding float_overflow_def b using a by linarith
  have "(0::real) < 2 ^ 970" by simp
  then show "float_overflow < 2 ^ 1024"
    unfolding float_overflow_def by linarith
qed

lemma no_float_overflow: "r \<le> 1000 \<Longrightarrow> \<not> float_overflow \<le> r"
proof -
  assume r: "r \<le> 1000"
  have "(2::real) ^ 10 \<le> 2 ^ 1023"
    by (rule power_increasing) simp_all
  moreover have "(1000::real) < 2 ^ 10" by simp
  ultimately show ?thesis
    using r float_overflow_bounds(1) by linarith
qed

section \<open>The p-value of the z-test cell\<close>

lemma p_value_z_Fin: "p_value_z (Fin z) = Fin (2 * norm_pdf_real \<bar>z\<bar>)"
  by (simp add: p_value_z_def)

lemma p_value_z_not_above: "\<not> fl_less (Fin 0.8) (p_value_z x)"
proof (cases x)
  case (Fin z)
  have "2 * norm_pdf_real \<bar>z\<bar> \<le> 2 / sqrt (2 * pi)"
    using norm_pdf_real_le [of "\<bar>z\<bar>"] by simp
  moreover have "(0.798::real) < 0.8" by simp
  ultimately have "2 * norm_pdf_real \<bar>z\<bar> < 0.8"
    using norm_pdf_peak_bounds(2) by (meson le_less_trans less_trans)
  then show ?thesis using Fin by (simp add: p_value_z_def)
qed (simp_all add: p_value_z_def)

text \<open>
  Claim C10. For every real statistic \<open>z\<close> the p-value of the z-test cell is twice the
  normal density at \<open>\<bar>z\<bar>\<close>, which is at most \<open>2 / sqrt (2 \<pi>)\<close>; at the statistic 0
  the cell shows exactly that peak, a number between 0.7978 and 0.798 and not 1; and
  for no statistic at all, infinite or NaN included, and for no sample summary, is the
  p-value of the cell above 0.8.
\<close>

theorem normal_p_value_at_most_peak:
  "p_value_z (Fin z) = Fin (2 * norm_pdf_real \<bar>z\<bar>)
   \<and> 2 * norm_pdf_real \<bar>z\<bar> \<le> 2 / sqrt (2 * pi)
   \<and> p_value_z (Fin 0) = Fin (2 / sqrt (2 * pi))
   \<and> 0.7978 < 2 / sqrt (2 * pi) \<and> 2 / sqrt (2 * pi) < 0.798
   \<and> \<not> fl_less (Fin 0.8) (p_value_z x)
   \<and> \<not> fl_less (Fin 0.8) (pValue (two_sided_z_test n m s mu0 alpha))"
proof -
  have "2 * norm_pdf_real \<bar>z\<bar> \<le> 2 / sqrt (2 * pi)"
    using norm_pdf_real_le [of "\<bar>z\<bar>"] by simp
  moreover have "p_value_z (Fin 0) = Fin (2 / sqrt (2 * pi))"
    by (simp add: p_value_z_Fin norm_pdf_real_0)
  moreover have "\<not> fl_less (Fin 0.8) (pValue (two_sided_z_test n m s mu0 alpha))"
    using p_value_z_not_above [of "z_score m mu0 (err s n)"]
    by (simp add: two_sided_z_test_def Let_def)
  ultimately show ?thesis
    using p_value_z_Fin norm_pdf_peak_bounds p_value_z_not_above by blast
qed

section \<open>The test statistic\<close>

lemma err_pos: "0 < n \<Longrightarrow> err s n = Fin (s / sqrt (real n))"
  by (simp add: err_def np_sqrt_def)

lemma score_finite:
  "0 < n \<Longrightarrow> s \<noteq> 0 \<Longrightarrow> t_score m mu0 (err s n) = Fin ((m - mu0) / (s / sqrt (real n)))"
  by (simp add: err_pos t_score_def)

lemma z_score_eq_t_score: "z_score m mu0 e = t_score m mu0 e"
  by (simp add: z_score_def t_score_def)

text \<open>
  Claim C2. For a sample of more than one value with a positive standard deviation,
  the standard error is \<open>s / sqrt n\<close>, the statistic of the t-test cell is
  \<open>(m - mu0) / (s / sqrt n)\<close>, and the z-test cell computes the same statistic: the
  two cells differ only in the distribution function applied afterwards.
\<close>

theorem statistic_shared_formula:
  assumes "1 < n" and "0 < s"
  shows "err s n = Fin (s / sqrt (real n))
    \<and> statistic (two_sided_t_test sf n m s mu0 alpha) = Fin ((m - mu0) / (s / sqrt (real n)))
    \<and> statistic (two_sided_z_test n m s mu0 alpha) = statistic (two_sided_t_test sf n m s mu0 alpha)"
proof -
  have "0 < n" and "s \<noteq> 0" using assms by auto
  then show ?thesis
    using err_pos [of n s] score_finite [of n s m mu0]
    by (simp add: two_sided_t_test_def two_sided_z_test_def Let_def z_score_eq_t_score)
qed

text \<open>
  Claim C2 at a sample summary: \<open>n = 4\<close>, mean 3, standard deviation 2 against the
  hypothesised mean 1 gives the statistic \<open>(3 - 1) / (2 / sqrt 4) = 2\<close> in both cells.
\<close>

theorem statistic_shared_formula_witness:
  "(1::nat) < 4 \<and> (0::real) < 2
   \<and> statistic (two_sided_t_test student_t_sf 4 3 2 1 0.05) = Fin 2
   \<and> statistic (two_sided_z_test 4 3 2 1 0.05) = Fin 2"
  using statistic_shared_formula [of 4 2 student_t_sf 3 1 "0.05"] by simp

section \<open>Student's t in closed form\<close>

subsection \<open>Soundness of the interval checker\<close>

lemma t_coeff_even_nonneg: "0 \<le> t_coeff_even j"
  by (induction j) auto

lemma of_int_div_le: "real_of_int (a div b) \<le> real_of_int a / real_of_int b"
proof -
  have "real_of_int (a div b) = of_int \<lfloor>real_of_int a / real_of_int b\<rfloor>"
    by (simp add: floor_divide_of_int_eq)
  then show ?thesis by simp
qed

lemma of_int_div_up_ge: "real_of_int a / real_of_int b \<le> real_of_int (- ((- a) div b))"
proof -
  have "real_of_int (- ((- a) div b)) = of_int \<lceil>real_of_int a / real_of_int b\<rceil>"
    by (simp add: ceiling_divide_eq_div)
  then show ?thesis by simp
qed

lemma scaled_step:
  fixes a b c d N :: real
  shows "a / N * (b / N) * (c / d) = a * b * c / (N * d) / N"
  by simp

lemma series_bounds_sound:
  assumes "0 < N" "0 \<le> ul" "real_of_int ul / real_of_int N \<le> u" "u \<le> real_of_int uh / real_of_int N"
    and "0 \<le> tlo" "real_of_int tlo / real_of_int N \<le> t_coeff_even j * u ^ j"
    and "t_coeff_even j * u ^ j \<le> real_of_int thi / real_of_int N"
    and "real_of_int alo / real_of_int N \<le> A" "A \<le> real_of_int ahi / real_of_int N"
    and "series_bounds N ul uh k (int j) tlo thi alo ahi = (L, H)"
  shows "real_of_int L / real_of_int N \<le> A + (\<Sum>i<k. t_coeff_even (j + i) * u ^ (j + i))
       \<and> A + (\<Sum>i<k. t_coeff_even (j + i) * u ^ (j + i)) \<le> real_of_int H / real_of_int N"
  using assms(5-)
proof (induction k arbitrary: j tlo thi alo ahi A)
  case 0
  then show ?case by simp
next
  case (Suc k)
  let ?d = "N * (2 * int j + 2)"
  let ?tl = "(tlo * ul * (2 * int j + 1)) div ?d"
  let ?th = "- ((- (thi * uh * (2 * int j + 1))) div ?d)"
  let ?r = "(2 * real j + 1) / (2 * real j + 2)"
  let ?c = "t_coeff_even j * u ^ j"
  have N: "0 < real_of_int N" using assms(1) by simp
  have ul0: "0 \<le> real_of_int ul / real_of_int N" using assms(2) N by simp
  have u0: "0 \<le> u" using ul0 assms(3) by linarith
  have c0: "0 \<le> ?c" using u0 by (simp add: t_coeff_even_nonneg)
  have th0: "0 \<le> real_of_int thi / real_of_int N" using c0 Suc.prems(3) by linarith
  have uh0: "0 \<le> real_of_int uh / real_of_int N" using u0 assms(4) by linarith
  have tl0: "0 \<le> real_of_int tlo / real_of_int N" using Suc.prems(1) N by simp
  have r0: "0 \<le> ?r" by simp
  have next_c: "t_coeff_even (Suc j) * u ^ Suc j = ?c * u * ?r"
    by simp
  have d_pos: "0 < ?d" using assms(1) by simp
  have lo1: "real_of_int ?tl / real_of_int N
       \<le> (real_of_int tlo / real_of_int N) * (real_of_int ul / real_of_int N) * ?r"
  proof -
    have "real_of_int ?tl \<le> real_of_int (tlo * ul * (2 * int j + 1)) / real_of_int ?d"
      by (rule of_int_div_le)
    then have "real_of_int ?tl / real_of_int N
        \<le> real_of_int (tlo * ul * (2 * int j + 1)) / real_of_int ?d / real_of_int N"
      using N by (intro divide_right_mono) auto
    also have "\<dots> = (real_of_int tlo / real_of_int N) * (real_of_int ul / real_of_int N) * ?r"
      unfolding scaled_step by simp
    finally show ?thesis .
  qed
  have lo2: "(real_of_int tlo / real_of_int N) * (real_of_int ul / real_of_int N) * ?r \<le> ?c * u * ?r"
    by (intro mult_mono mult_nonneg_nonneg tl0 ul0 r0 c0 u0 Suc.prems(2) assms(3) order_refl)
  have hi1: "(real_of_int thi / real_of_int N) * (real_of_int uh / real_of_int N) * ?r
       \<le> real_of_int ?th / real_of_int N"
  proof -
    have "(real_of_int thi / real_of_int N) * (real_of_int uh / real_of_int N) * ?r
        = real_of_int (thi * uh * (2 * int j + 1)) / real_of_int ?d / real_of_int N"
      unfolding scaled_step by simp
    also have "\<dots> \<le> real_of_int ?th / real_of_int N"
      using N by (intro divide_right_mono of_int_div_up_ge) auto
    finally show ?thesis .
  qed
  have hi2: "?c * u * ?r \<le> (real_of_int thi / real_of_int N) * (real_of_int uh / real_of_int N) * ?r"
    by (intro mult_mono mult_nonneg_nonneg th0 uh0 r0 c0 u0 Suc.prems(3) assms(4) order_refl)
  have tl0': "0 \<le> ?tl"
    using Suc.prems(1) assms(2) d_pos by (simp add: pos_imp_zdiv_nonneg_iff)
  have run: "series_bounds N ul uh k (int (Suc j)) ?tl ?th (alo + tlo) (ahi + thi) = (L, H)"
    using Suc.prems(6) by (simp add: add.commute)
  have al': "real_of_int (alo + tlo) / real_of_int N \<le> A + ?c"
    using Suc.prems(2,4) by (simp add: add_divide_distrib)
  have ah': "A + ?c \<le> real_of_int (ahi + thi) / real_of_int N"
    using Suc.prems(3,5) by (simp add: add_divide_distrib)
  have IH: "real_of_int L / real_of_int N
        \<le> (A + ?c) + (\<Sum>i<k. t_coeff_even (Suc j + i) * u ^ (Suc j + i))
      \<and> (A + ?c) + (\<Sum>i<k. t_coeff_even (Suc j + i) * u ^ (Suc j + i))
        \<le> real_of_int H / real_of_int N"
  proof (rule Suc.IH [OF tl0' _ _ al' ah' run])
    show "real_of_int ?tl / real_of_int N \<le> t_coeff_even (Suc j) * u ^ Suc j"
      using lo1 lo2 unfolding next_c by linarith
    show "t_coeff_even (Suc j) * u ^ Suc j \<le> real_of_int ?th / real_of_int N"
      using hi1 hi2 unfolding next_c by linarith
  qed
  define f where "f i = t_coeff_even i * u ^ i" for i
  have "(\<Sum>i<Suc k. f (j + i)) = f (j + 0) + (\<Sum>i<k. f (j + Suc i))"
    by (rule sum.lessThan_Suc_shift)
  then have "(\<Sum>i<Suc k. t_coeff_even (j + i) * u ^ (j + i))
      = ?c + (\<Sum>i<k. t_coeff_even (Suc j + i) * u ^ (Suc j + i))"
    unfolding f_def by (simp only: add_0_right add_Suc_right add_Suc)
  then show ?case using IH by (simp only: add.assoc)
qed

subsection \<open>The closed form at 0 and at one and two degrees of freedom\<close>

lemma student_t_sf_0: "student_t_sf 0 df = 1 / 2"
  by (simp add: student_t_sf_def Let_def)

lemma student_t_sf_1: "student_t_sf x 1 = 1 / 2 - arctan x / pi"
  by (simp add: student_t_sf_def Let_def)

lemma student_t_sf_2: "student_t_sf x 2 = 1 / 2 - x / (2 * sqrt (2 + x\<^sup>2))"
  by (simp add: student_t_sf_def Let_def)

subsection \<open>The closed form at even degrees of freedom\<close>

lemma student_t_sf_neg: "student_t_sf (- x) df = 1 - student_t_sf x df"
  by (simp add: student_t_sf_def Let_def arctan_minus field_simps)

lemma student_t_sf_even:
  assumes "0 \<le> x" and "0 < k"
  defines "u \<equiv> 2 * real k / (2 * real k + x\<^sup>2)"
  shows "student_t_sf x (2 * int k) = 1 / 2 - sqrt (1 - u) / 2 * (\<Sum>j<k. t_coeff_even j * u ^ j)"
proof -
  have pos: "0 < 2 * real k + x\<^sup>2"
    using assms(2) by (simp add: add_pos_nonneg)
  have "1 - u = x\<^sup>2 / (2 * real k + x\<^sup>2)"
    using pos unfolding u_def by (simp add: field_simps)
  then have "sqrt (1 - u) = x / sqrt (2 * real k + x\<^sup>2)"
    using assms(1) by (simp add: real_sqrt_divide)
  then show ?thesis
    unfolding u_def by (simp add: student_t_sf_def Let_def)
qed

subsection \<open>The closed form is a probability\<close>

text \<open>
  For every number of degrees of freedom from 1 on, the closed form lies between 0 and
  1, and is at most 1/2 at an argument that is not negative. For even \<open>df = 2k\<close> this is
  \<open>sqrt (1 - u) * (\<Sum>j<k. c\<^sub>j u\<^sup>j) \<le> 1\<close> for \<open>0 \<le> u \<le> 1\<close>: the square of the left side, as a
  function of \<open>u\<close>, is 1 at 0 (for \<open>k > 0\<close>) and its derivative is not positive.
\<close>

lemma even_series_deriv:
  "((\<lambda>t. \<Sum>j<k. t_coeff_even j * t ^ j) has_real_derivative
      (\<Sum>j<k. t_coeff_even j * (real j * t ^ (j - Suc 0)))) (at t)"
proof (rule DERIV_sum)
  fix j
  show "((\<lambda>t. t_coeff_even j * t ^ j) has_real_derivative
      t_coeff_even j * (real j * t ^ (j - Suc 0))) (at t)"
    by (auto intro!: derivative_eq_intros)
qed

lemma even_series_identity:
  "2 * (1 - t) * (\<Sum>j<k. t_coeff_even j * (real j * t ^ (j - Suc 0)))
     - (\<Sum>j<k. t_coeff_even j * t ^ j)
   = - (2 * real k * t_coeff_even k * t ^ (k - Suc 0))"
proof (induction k)
  case 0
  show ?case by simp
next
  case (Suc k)
  have c: "2 * real (Suc k) * t_coeff_even (Suc k) = (2 * real k + 1) * t_coeff_even k"
    by (simp add: field_simps)
  have p: "real k * (t ^ (k - Suc 0) * t) = real k * t ^ k"
    by (cases k) simp_all
  have "2 * (1 - t) * (\<Sum>j<Suc k. t_coeff_even j * (real j * t ^ (j - Suc 0)))
          - (\<Sum>j<Suc k. t_coeff_even j * t ^ j)
      = (2 * (1 - t) * (\<Sum>j<k. t_coeff_even j * (real j * t ^ (j - Suc 0)))
          - (\<Sum>j<k. t_coeff_even j * t ^ j))
        + (2 * (1 - t) * (t_coeff_even k * (real k * t ^ (k - Suc 0))) - t_coeff_even k * t ^ k)"
    by (simp add: algebra_simps)
  also have "\<dots> = - (2 * real k * t_coeff_even k * t ^ (k - Suc 0))
        + (2 * (1 - t) * (t_coeff_even k * (real k * t ^ (k - Suc 0))) - t_coeff_even k * t ^ k)"
    by (simp only: Suc.IH)
  also have "\<dots> = - (2 * t_coeff_even k * (real k * (t ^ (k - Suc 0) * t))) - t_coeff_even k * t ^ k"
    by (simp add: algebra_simps)
  also have "\<dots> = - ((2 * real k + 1) * t_coeff_even k * t ^ k)"
    by (simp only: p) (simp add: algebra_simps)
  also have "\<dots> = - (2 * real (Suc k) * t_coeff_even (Suc k) * t ^ (Suc k - Suc 0))"
    by (simp only: c [symmetric]) simp
  finally show ?case .
qed

lemma even_series_nonneg: "0 \<le> t \<Longrightarrow> 0 \<le> (\<Sum>j<k. t_coeff_even j * t ^ j)"
  by (intro sum_nonneg mult_nonneg_nonneg t_coeff_even_nonneg zero_le_power)

lemma even_series_square_bound:
  assumes "0 \<le> u"
  shows "(1 - u) * (\<Sum>j<k. t_coeff_even j * u ^ j)\<^sup>2 \<le> 1"
proof -
  define S where "S t = (\<Sum>j<k. t_coeff_even j * t ^ j)" for t :: real
  define S' where "S' t = (\<Sum>j<k. t_coeff_even j * (real j * t ^ (j - Suc 0)))" for t :: real
  define f where "f t = (1 - t) * (S t)\<^sup>2" for t
  have dS: "(S has_real_derivative S' t) (at t)" for t
    unfolding S_def S'_def by (rule even_series_deriv)
  have df: "(f has_real_derivative (S t * (2 * (1 - t) * S' t - S t))) (at t)" for t
  proof -
    have A: "((\<lambda>t. 1 - t) has_real_derivative - 1) (at t)"
      by (auto intro!: derivative_eq_intros)
    have B: "((\<lambda>t. S t * S t) has_real_derivative S' t * S t + S' t * S t) (at t)"
      by (rule DERIV_mult [OF dS dS])
    have "((\<lambda>t. (1 - t) * (S t * S t)) has_real_derivative
        - 1 * (S t * S t) + (S' t * S t + S' t * S t) * (1 - t)) (at t)"
      by (rule DERIV_mult [OF A B])
    moreover have "- 1 * (S t * S t) + (S' t * S t + S' t * S t) * (1 - t)
        = S t * (2 * (1 - t) * S' t - S t)"
      by (simp add: algebra_simps)
    ultimately show ?thesis
      unfolding f_def power2_eq_square by (rule DERIV_cong)
  qed
  have neg: "S t * (2 * (1 - t) * S' t - S t) \<le> 0" if "0 \<le> t" for t
  proof -
    have "2 * (1 - t) * S' t - S t = - (2 * real k * t_coeff_even k * t ^ (k - Suc 0))"
      unfolding S_def S'_def by (rule even_series_identity)
    moreover have "0 \<le> 2 * real k * t_coeff_even k * t ^ (k - Suc 0)"
      using that by (intro mult_nonneg_nonneg t_coeff_even_nonneg zero_le_power) simp_all
    moreover have "0 \<le> S t"
      unfolding S_def using that by (rule even_series_nonneg)
    ultimately show ?thesis
      by (simp add: mult_nonneg_nonpos)
  qed
  have "f u \<le> f 0"
  proof (rule DERIV_nonpos_imp_nonincreasing [OF assms])
    fix t :: real assume "0 \<le> t" "t \<le> u"
    then show "\<exists>y. (f has_real_derivative y) (at t) \<and> y \<le> 0"
      using df [of t] neg [of t] by blast
  qed
  moreover have "S 0 = (if k = 0 then 0 else 1)"
  proof (cases k)
    case 0
    then show ?thesis by (simp add: S_def)
  next
    case (Suc k')
    have "S 0 = (\<Sum>j<Suc k'. t_coeff_even j * 0 ^ j)"
      by (simp add: S_def Suc)
    also have "\<dots> = 1"
      by (simp add: sum.lessThan_Suc_shift)
    finally show ?thesis using Suc by simp
  qed
  ultimately show ?thesis
    by (simp add: f_def S_def split: if_splits)
qed

lemma even_series_bound:
  assumes "0 \<le> u" and "u \<le> 1"
  shows "sqrt (1 - u) * (\<Sum>j<k. t_coeff_even j * u ^ j) \<le> 1"
proof -
  let ?S = "\<Sum>j<k. t_coeff_even j * u ^ j"
  have "(sqrt (1 - u) * ?S)\<^sup>2 \<le> 1\<^sup>2"
    using even_series_square_bound [OF assms(1), of k] assms(2)
    by (simp add: power_mult_distrib)
  then show ?thesis
    by (rule power2_le_imp_le) simp
qed

text \<open>
  For odd \<open>df = 2k + 1\<close> the partial sums \<open>\<Sum>j<k. d\<^sub>j z^(2j+1) / (1 + z\<^sup>2)^(j+1)\<close> stay below
  \<open>arctan z\<close> for \<open>z \<ge> 0\<close>: the difference is 0 at 0 and its derivative is not negative.
  With \<open>z = sqrt df / x\<close> and \<open>arctan (x / sqrt df) = \<pi>/2 - arctan z\<close> the bracket of the
  closed form is at most \<open>\<pi>/2\<close>.
\<close>

lemma t_coeff_odd_nonneg: "0 \<le> t_coeff_odd j"
  by (induction j) auto

lemma odd_term_deriv:
  fixes z :: real
  shows "((\<lambda>z. d * z ^ (2 * k + 1) / (1 + z\<^sup>2) ^ (k + 1)) has_real_derivative
      d * z ^ (2 * k) * ((2 * real k + 1) - z\<^sup>2) / (1 + z\<^sup>2) ^ (k + 2)) (at z)"
proof -
  define w where "w = 1 + z\<^sup>2"
  have w: "0 < w" unfolding w_def by (simp add: add_pos_nonneg)
  have F0: "((\<lambda>z. z ^ (2 * k + 1)) has_real_derivative
      real (2 * k + 1) * z ^ (2 * k + 1 - Suc 0)) (at z)"
    by (rule DERIV_pow)
  have e: "2 * k + 1 - Suc 0 = 2 * k" by simp
  have F: "((\<lambda>z. d * z ^ (2 * k + 1)) has_real_derivative d * (real (2 * k + 1) * z ^ (2 * k))) (at z)"
    using DERIV_cmult [OF F0, of d] unfolding e .
  have H: "((\<lambda>z. 1 + z\<^sup>2) has_real_derivative 2 * z) (at z)"
    by (auto intro!: derivative_eq_intros)
  have e': "k + 1 - Suc 0 = k" by simp
  have G: "((\<lambda>z. (1 + z\<^sup>2) ^ (k + 1)) has_real_derivative real (k + 1) * ((2 * z) * w ^ k)) (at z)"
    using DERIV_power [OF H, of "k + 1"] unfolding e' w_def .
  have nz: "(1 + z\<^sup>2) ^ (k + 1) \<noteq> 0"
    using w unfolding w_def by simp
  have "((\<lambda>z. d * z ^ (2 * k + 1) / (1 + z\<^sup>2) ^ (k + 1)) has_real_derivative
      (d * (real (2 * k + 1) * z ^ (2 * k)) * (1 + z\<^sup>2) ^ (k + 1)
        - d * z ^ (2 * k + 1) * (real (k + 1) * ((2 * z) * w ^ k)))
      / ((1 + z\<^sup>2) ^ (k + 1) * (1 + z\<^sup>2) ^ (k + 1))) (at z)"
    by (rule DERIV_divide [OF F G nz])
  moreover have "(d * (real (2 * k + 1) * z ^ (2 * k)) * (1 + z\<^sup>2) ^ (k + 1)
        - d * z ^ (2 * k + 1) * (real (k + 1) * ((2 * z) * w ^ k)))
      / ((1 + z\<^sup>2) ^ (k + 1) * (1 + z\<^sup>2) ^ (k + 1))
      = d * z ^ (2 * k) * ((2 * real k + 1) - z\<^sup>2) / (1 + z\<^sup>2) ^ (k + 2)"
  proof -
    have num: "d * (real (2 * k + 1) * z ^ (2 * k)) * w ^ (k + 1)
        - d * z ^ (2 * k + 1) * (real (k + 1) * ((2 * z) * w ^ k))
        = (d * z ^ (2 * k) * ((2 * real k + 1) - z\<^sup>2)) * w ^ k"
    proof -
      have "z\<^sup>2 = w - 1" unfolding w_def by simp
      then have zz: "z * z = w - 1" by (simp add: power2_eq_square)
      have "d * (real (2 * k + 1) * z ^ (2 * k)) * w ^ (k + 1)
          - d * z ^ (2 * k + 1) * (real (k + 1) * ((2 * z) * w ^ k))
          = d * z ^ (2 * k) * w ^ k * ((2 * real k + 1) * w - (2 * real k + 2) * (z * z))"
        by (simp add: algebra_simps)
      also have "\<dots> = d * z ^ (2 * k) * w ^ k * ((2 * real k + 1) - (z * z))"
        unfolding zz by (simp add: algebra_simps)
      finally show ?thesis by (simp add: power2_eq_square algebra_simps)
    qed
    have den: "w ^ (k + 1) * w ^ (k + 1) = w ^ k * w ^ (k + 2)"
      by (simp add: power_add)
    have "(d * z ^ (2 * k) * ((2 * real k + 1) - z\<^sup>2)) * w ^ k / (w ^ k * w ^ (k + 2))
        = d * z ^ (2 * k) * ((2 * real k + 1) - z\<^sup>2) / w ^ (k + 2)"
      using w by simp
    then show ?thesis
      unfolding w_def [symmetric] num den .
  qed
  ultimately show ?thesis by (rule DERIV_cong)
qed


lemma odd_series_deriv:
  fixes z :: real
  shows "((\<lambda>z. \<Sum>j<k. t_coeff_odd j * z ^ (2 * j + 1) / (1 + z\<^sup>2) ^ (j + 1)) has_real_derivative
      1 / (1 + z\<^sup>2) - (2 * real k + 1) * t_coeff_odd k * z ^ (2 * k) / (1 + z\<^sup>2) ^ (k + 1)) (at z)"
proof (induction k)
  case 0
  show ?case by simp
next
  case (Suc k)
  define w where "w = 1 + z\<^sup>2"
  have w: "0 < w" unfolding w_def by (simp add: add_pos_nonneg)
  let ?T = "\<lambda>z. t_coeff_odd k * z ^ (2 * k + 1) / (1 + z\<^sup>2) ^ (k + 1)"
  have "((\<lambda>z. (\<Sum>j<k. t_coeff_odd j * z ^ (2 * j + 1) / (1 + z\<^sup>2) ^ (j + 1)) + ?T z)
      has_real_derivative
      (1 / (1 + z\<^sup>2) - (2 * real k + 1) * t_coeff_odd k * z ^ (2 * k) / (1 + z\<^sup>2) ^ (k + 1))
      + t_coeff_odd k * z ^ (2 * k) * ((2 * real k + 1) - z\<^sup>2) / (1 + z\<^sup>2) ^ (k + 2)) (at z)"
    by (rule DERIV_add [OF Suc.IH odd_term_deriv])
  moreover have "(1 / (1 + z\<^sup>2) - (2 * real k + 1) * t_coeff_odd k * z ^ (2 * k) / (1 + z\<^sup>2) ^ (k + 1))
      + t_coeff_odd k * z ^ (2 * k) * ((2 * real k + 1) - z\<^sup>2) / (1 + z\<^sup>2) ^ (k + 2)
      = 1 / (1 + z\<^sup>2)
        - (2 * real (Suc k) + 1) * t_coeff_odd (Suc k) * z ^ (2 * Suc k) / (1 + z\<^sup>2) ^ (Suc k + 1)"
  proof -
    define c where "c = t_coeff_odd k * z ^ (2 * k)"
    have c': "(2 * real (Suc k) + 1) * t_coeff_odd (Suc k) * z ^ (2 * Suc k)
        = (2 * real k + 2) * c * z\<^sup>2"
      unfolding c_def by (simp add: power2_eq_square field_simps)
    have z2: "z\<^sup>2 = w - 1" unfolding w_def by simp
    have "(2 * real k + 1) * c / w ^ (k + 1) = (2 * real k + 1) * c * w / w ^ (k + 2)"
      using w by (simp add: power_add)
    then have "(1 / w - (2 * real k + 1) * c / w ^ (k + 1)) + c * ((2 * real k + 1) - (w - 1)) / w ^ (k + 2)
        = 1 / w - ((2 * real k + 1) * c * w - c * ((2 * real k + 1) - (w - 1))) / w ^ (k + 2)"
      by (simp add: diff_divide_distrib)
    also have "(2 * real k + 1) * c * w - c * ((2 * real k + 1) - (w - 1)) = (2 * real k + 2) * c * (w - 1)"
      by (simp add: algebra_simps)
    finally have "(1 / w - (2 * real k + 1) * c / w ^ (k + 1)) + c * ((2 * real k + 1) - (w - 1)) / w ^ (k + 2)
        = 1 / w - (2 * real k + 2) * c * (w - 1) / w ^ (Suc k + 1)"
      by simp
    moreover have "(2 * real k + 1) * t_coeff_odd k * z ^ (2 * k) / w ^ (k + 1)
        = (2 * real k + 1) * c / w ^ (k + 1)"
      by (simp add: c_def mult.assoc)
    moreover have "t_coeff_odd k * z ^ (2 * k) * ((2 * real k + 1) - z\<^sup>2) / w ^ (k + 2)
        = c * ((2 * real k + 1) - (w - 1)) / w ^ (k + 2)"
      by (simp add: c_def z2)
    moreover have "(2 * real (Suc k) + 1) * t_coeff_odd (Suc k) * z ^ (2 * Suc k) / w ^ (Suc k + 1)
        = (2 * real k + 2) * c * (w - 1) / w ^ (Suc k + 1)"
      by (simp only: c' z2)
    ultimately show ?thesis
      unfolding w_def [symmetric] by (simp only:)
  qed
  ultimately have "((\<lambda>z. (\<Sum>j<k. t_coeff_odd j * z ^ (2 * j + 1) / (1 + z\<^sup>2) ^ (j + 1)) + ?T z)
      has_real_derivative
      1 / (1 + z\<^sup>2)
        - (2 * real (Suc k) + 1) * t_coeff_odd (Suc k) * z ^ (2 * Suc k) / (1 + z\<^sup>2) ^ (Suc k + 1)) (at z)"
    by (rule DERIV_cong)
  then show ?case by simp
qed

lemma odd_series_le_arctan:
  assumes "0 \<le> z"
  shows "(\<Sum>j<k. t_coeff_odd j * z ^ (2 * j + 1) / (1 + z\<^sup>2) ^ (j + 1)) \<le> arctan z"
proof -
  define g where "g z = arctan z - (\<Sum>j<k. t_coeff_odd j * z ^ (2 * j + 1) / (1 + z\<^sup>2) ^ (j + 1))"
    for z :: real
  have dg: "(g has_real_derivative
      (2 * real k + 1) * t_coeff_odd k * y ^ (2 * k) / (1 + y\<^sup>2) ^ (k + 1)) (at y)" for y
  proof -
    have "(g has_real_derivative inverse (1 + y\<^sup>2)
        - (1 / (1 + y\<^sup>2) - (2 * real k + 1) * t_coeff_odd k * y ^ (2 * k) / (1 + y\<^sup>2) ^ (k + 1))) (at y)"
      unfolding g_def by (rule DERIV_diff [OF DERIV_arctan odd_series_deriv])
    then show ?thesis by (rule DERIV_cong) (simp add: inverse_eq_divide)
  qed
  have "g 0 \<le> g z"
  proof (rule DERIV_nonneg_imp_nondecreasing [OF assms])
    fix y :: real assume "0 \<le> y" "y \<le> z"
    have "0 < 1 + y\<^sup>2" by (simp add: add_pos_nonneg)
    then have "0 \<le> (2 * real k + 1) * t_coeff_odd k * y ^ (2 * k) / (1 + y\<^sup>2) ^ (k + 1)"
      using \<open>0 \<le> y\<close> by (intro divide_nonneg_nonneg mult_nonneg_nonneg t_coeff_odd_nonneg) simp_all
    then show "\<exists>d. (g has_real_derivative d) (at y) \<and> 0 \<le> d"
      using dg [of y] by blast
  qed
  moreover have "g 0 = 0" by (simp add: g_def)
  ultimately show ?thesis by (simp add: g_def)
qed

lemma odd_tail_bound:
  assumes "0 \<le> x" and "0 < v"
  shows "arctan (x / sqrt v)
     + x * sqrt v / (v + x\<^sup>2) * (\<Sum>j<k. t_coeff_odd j * (v / (v + x\<^sup>2)) ^ j) \<le> pi / 2"
proof (cases "x = 0")
  case True
  then show ?thesis by simp
next
  case False
  then have x: "0 < x" using assms(1) by simp
  define z where "z = sqrt v / x"
  have z: "0 < z" unfolding z_def using x assms(2) by simp
  have pos: "0 < v + x\<^sup>2" using assms(2) by (simp add: add_pos_nonneg)
  have sv: "sqrt v * sqrt v = v" using assms(2) by simp
  have one: "1 + z\<^sup>2 = (v + x\<^sup>2) / x\<^sup>2"
    unfolding z_def using x sv by (simp add: power_divide power2_eq_square field_simps)
  have a: "z / (1 + z\<^sup>2) = x * sqrt v / (v + x\<^sup>2)"
    unfolding one unfolding z_def using x pos by (simp add: power2_eq_square field_simps)
  have b: "z\<^sup>2 / (1 + z\<^sup>2) = v / (v + x\<^sup>2)"
    unfolding one unfolding z_def using x pos sv by (simp add: power_divide power2_eq_square)
  have tm: "t_coeff_odd j * z ^ (2 * j + 1) / (1 + z\<^sup>2) ^ (j + 1)
      = x * sqrt v / (v + x\<^sup>2) * (t_coeff_odd j * (v / (v + x\<^sup>2)) ^ j)" for j
  proof -
    have "t_coeff_odd j * z ^ (2 * j + 1) / (1 + z\<^sup>2) ^ (j + 1)
        = (z / (1 + z\<^sup>2)) * (t_coeff_odd j * (z\<^sup>2 / (1 + z\<^sup>2)) ^ j)"
      by (simp add: power_mult power_divide)
    then show ?thesis unfolding a b .
  qed
  have "x * sqrt v / (v + x\<^sup>2) * (\<Sum>j<k. t_coeff_odd j * (v / (v + x\<^sup>2)) ^ j)
      = (\<Sum>j<k. t_coeff_odd j * z ^ (2 * j + 1) / (1 + z\<^sup>2) ^ (j + 1))"
    unfolding tm by (simp add: sum_distrib_left)
  also have "\<dots> \<le> arctan z"
    using z by (intro odd_series_le_arctan) simp
  finally have le: "x * sqrt v / (v + x\<^sup>2) * (\<Sum>j<k. t_coeff_odd j * (v / (v + x\<^sup>2)) ^ j)
      \<le> arctan z" .
  have "arctan (1 / z) = sgn z * pi / 2 - arctan z"
    using z by (intro arctan_inverse) simp
  moreover have "1 / z = x / sqrt v" unfolding z_def by simp
  ultimately have "arctan (x / sqrt v) = pi / 2 - arctan z"
    using z by simp
  then show ?thesis using le by linarith
qed

lemma odd_series_nonneg: "0 \<le> t \<Longrightarrow> 0 \<le> (\<Sum>j<k. t_coeff_odd j * t ^ j)"
  by (intro sum_nonneg mult_nonneg_nonneg t_coeff_odd_nonneg zero_le_power)

lemma student_t_sf_upper_half:
  assumes "0 \<le> x" and "1 \<le> df"
  shows "0 \<le> student_t_sf x df" and "student_t_sf x df \<le> 1 / 2"
proof -
  have "0 \<le> student_t_sf x df \<and> student_t_sf x df \<le> 1 / 2"
  proof (cases "even df")
    case True
    define k where "k = nat (df div 2)"
    from True obtain j where j: "df = 2 * j"
      by (rule evenE)
    have j1: "1 \<le> j"
      using assms(2) unfolding j by arith
    have k: "df = 2 * int k" "0 < k"
      using j1 by (simp_all add: k_def j)
    define u where "u = 2 * real k / (2 * real k + x\<^sup>2)"
    have pos: "0 < 2 * real k + x\<^sup>2"
      using k(2) by (simp add: add_pos_nonneg)
    have u: "0 \<le> u" "u \<le> 1"
      using pos by (simp_all add: u_def)
    have s: "0 \<le> (\<Sum>j<k. t_coeff_even j * u ^ j)"
      using u(1) by (rule even_series_nonneg)
    have lo: "0 \<le> sqrt (1 - u) * (\<Sum>j<k. t_coeff_even j * u ^ j)"
      using u(2) s by (intro mult_nonneg_nonneg) simp_all
    have hi: "sqrt (1 - u) * (\<Sum>j<k. t_coeff_even j * u ^ j) \<le> 1"
      using u by (rule even_series_bound)
    have "student_t_sf x df = 1 / 2 - sqrt (1 - u) * (\<Sum>j<k. t_coeff_even j * u ^ j) / 2"
      unfolding k(1) u_def using student_t_sf_even [OF assms(1) k(2)] by simp
    then show ?thesis
      using lo hi by linarith
  next
    case False
    define k where "k = nat ((df - 1) div 2)"
    from False obtain j where j: "df = 2 * j + 1"
      by (rule oddE)
    have j0: "0 \<le> j"
      using assms(2) unfolding j by arith
    have k: "df = 2 * int k + 1"
      using j0 by (simp add: k_def j)
    define v where "v = real_of_int df"
    have v: "0 < v"
      using assms(2) by (simp add: v_def)
    define T where "T = arctan (x / sqrt v)
        + x * sqrt v / (v + x\<^sup>2) * (\<Sum>j<k. t_coeff_odd j * (v / (v + x\<^sup>2)) ^ j)"
    have hi: "T \<le> pi / 2"
      unfolding T_def using assms(1) v by (rule odd_tail_bound)
    have "0 \<le> v / (v + x\<^sup>2)"
      using v by (simp add: add_nonneg_nonneg)
    then have "0 \<le> (\<Sum>j<k. t_coeff_odd j * (v / (v + x\<^sup>2)) ^ j)"
      by (rule odd_series_nonneg)
    moreover have "0 \<le> x * sqrt v / (v + x\<^sup>2)"
      using assms(1) v by (simp add: add_nonneg_nonneg)
    moreover have "0 \<le> x / sqrt v"
      using assms(1) v by simp
    then have "0 \<le> arctan (x / sqrt v)"
      by (simp only: zero_le_arctan_iff)
    ultimately have lo: "0 \<le> T"
      unfolding T_def by (intro add_nonneg_nonneg mult_nonneg_nonneg)
    have n: "nat ((df - 1) div 2) = k"
      by (simp add: k_def)
    have "student_t_sf x df = 1 / 2 - T / pi"
      using False unfolding student_t_sf_def Let_def n T_def v_def by simp
    moreover have "0 \<le> T / pi" using lo by simp
    moreover have "T / pi \<le> 1 / 2" using hi by (simp add: field_simps)
    ultimately show ?thesis by linarith
  qed
  then show "0 \<le> student_t_sf x df" and "student_t_sf x df \<le> 1 / 2"
    by simp_all
qed

lemma student_t_sf_range:
  assumes "1 \<le> df"
  shows "0 \<le> student_t_sf x df" and "student_t_sf x df \<le> 1"
proof -
  have "0 \<le> student_t_sf x df \<and> student_t_sf x df \<le> 1"
  proof (cases "0 \<le> x")
    case True
    then show ?thesis
      using student_t_sf_upper_half [OF True assms] by simp
  next
    case False
    then have "0 \<le> - x" by simp
    from student_t_sf_upper_half [OF this assms] show ?thesis
      by (simp add: student_t_sf_neg)
  qed
  then show "0 \<le> student_t_sf x df" and "student_t_sf x df \<le> 1"
    by simp_all
qed

subsection \<open>The sample of the notebook\<close>

text \<open>
  The summary that cell 4 prints: \<open>n = 65\<close>, mean \<open>98.10461538461539\<close>, standard deviation
  \<open>0.6987557623265904\<close>; the hypothesised mean is \<open>98.6\<close>. The absolute value of the
  score is \<open>x0\<close>.
\<close>

lemma sqrt_65_bounds: "8.062257748298 < sqrt 65" "sqrt 65 < 8.062257748299"
proof -
  have "(8.062257748298 :: real)\<^sup>2 < 65" by (simp add: power2_eq_square)
  then show "8.062257748298 < sqrt 65" by (rule real_less_rsqrt)
  have "65 < (8.062257748299 :: real)\<^sup>2" by (simp add: power2_eq_square)
  then show "sqrt 65 < 8.062257748299" by (intro real_less_lsqrt) auto
qed

lemma notebook_score:
  "t_score 98.10461538461539 98.6 (err 0.6987557623265904 65)
     = Fin (- (0.49538461538461 * sqrt 65 / 0.6987557623265904))"
  by (simp add: t_score_def err_def np_sqrt_def)

lemma notebook_score_bounds:
  "5.7157565 < 0.49538461538461 * sqrt 65 / (0.6987557623265904 :: real)"
  "0.49538461538461 * sqrt 65 / (0.6987557623265904 :: real) < 5.7157575"
  using sqrt_65_bounds by simp_all

lemma notebook_u:
  "2 * real 32 / (2 * real 32 + (0.49538461538461 * sqrt 65 / 0.6987557623265904)\<^sup>2)
     = 195303846153845796693772355748864 / 294999999999997475539926201914489"
  by (simp add: power_mult_distrib power_divide)

lemma notebook_series_run:
  "series_bounds (10^15) 662046936114737 662046936114738 32 (int 0) (10^15) (10^15) 0 0
    = (1720171199231605, 1720171199231676)"
  by code_simp

lemma notebook_series_bounds:
  defines "u \<equiv> (195303846153845796693772355748864 / 294999999999997475539926201914489 :: real)"
  shows "1720171199231605 / 10^15 \<le> (\<Sum>j<32. t_coeff_even j * u ^ j)"
    and "(\<Sum>j<32. t_coeff_even j * u ^ j) \<le> 1720171199231676 / 10^15"
proof -
  have "real_of_int 1720171199231605 / real_of_int (10^15)
        \<le> 0 + (\<Sum>i<32. t_coeff_even (0 + i) * u ^ (0 + i))
      \<and> 0 + (\<Sum>i<32. t_coeff_even (0 + i) * u ^ (0 + i))
        \<le> real_of_int 1720171199231676 / real_of_int (10^15)"
  proof (rule series_bounds_sound [OF _ _ _ _ _ _ _ _ _ notebook_series_run])
    show "real_of_int 662046936114737 / real_of_int (10^15) \<le> u"
      unfolding u_def by simp
    show "u \<le> real_of_int 662046936114738 / real_of_int (10^15)"
      unfolding u_def by simp
  qed simp_all
  then show "1720171199231605 / 10^15 \<le> (\<Sum>j<32. t_coeff_even j * u ^ j)"
    and "(\<Sum>j<32. t_coeff_even j * u ^ j) \<le> 1720171199231676 / 10^15"
    by simp_all
qed

lemma notebook_sqrt_bounds:
  defines "u \<equiv> (195303846153845796693772355748864 / 294999999999997475539926201914489 :: real)"
  shows "581337306462661 / 10^15 \<le> sqrt (1 - u)" and "sqrt (1 - u) \<le> 581337306462662 / 10^15"
proof -
  have "(581337306462661 / 10^15 :: real)\<^sup>2 \<le> 1 - u"
    unfolding u_def by (simp add: power2_eq_square)
  then show "581337306462661 / 10^15 \<le> sqrt (1 - u)"
    by (rule real_le_rsqrt)
  have "1 - u \<le> (581337306462662 / 10^15 :: real)\<^sup>2"
    unfolding u_def by (simp add: power2_eq_square)
  then show "sqrt (1 - u) \<le> 581337306462662 / 10^15"
    by (intro real_le_lsqrt) auto
qed

lemma notebook_tail_product:
  defines "x0 \<equiv> (0.49538461538461 * sqrt 65 / 0.6987557623265904 :: real)"
  shows "1 - 3.083845 / 10^7 < 1 - 2 * student_t_sf x0 64"
    and "1 - 2 * student_t_sf x0 64 < 1 - 3.083835 / 10^7"
proof -
  define u :: real where "u = 195303846153845796693772355748864 / 294999999999997475539926201914489"
  define S where "S = (\<Sum>j<32. t_coeff_even j * u ^ j)"
  define r where "r = sqrt (1 - u)"
  have x0: "0 \<le> x0" unfolding x0_def by simp
  have u: "2 * real 32 / (2 * real 32 + x0\<^sup>2) = u"
    unfolding x0_def u_def by (rule notebook_u)
  have "student_t_sf x0 (2 * int 32) = 1 / 2 - r / 2 * S"
    unfolding S_def r_def u [symmetric] by (rule student_t_sf_even [OF x0]) simp
  moreover have "2 * int 32 = 64" by simp
  ultimately have "student_t_sf x0 64 = 1 / 2 - r / 2 * S" by simp
  then have eq: "1 - 2 * student_t_sf x0 64 = r * S" by simp
  have S: "1720171199231605 / 10^15 \<le> S" "S \<le> 1720171199231676 / 10^15"
    unfolding S_def u_def by (rule notebook_series_bounds)+
  have r: "581337306462661 / 10^15 \<le> r" "r \<le> 581337306462662 / 10^15"
    unfolding r_def u_def by (rule notebook_sqrt_bounds)+
  have "581337306462661 / 10^15 * (1720171199231605 / 10^15) \<le> r * S"
    using S(1) r(1) by (intro mult_mono) auto
  moreover have "1 - 3.083845 / 10^7 < (581337306462661 / 10^15 * (1720171199231605 / 10^15) :: real)"
    by simp
  ultimately show "1 - 3.083845 / 10^7 < 1 - 2 * student_t_sf x0 64"
    unfolding eq by (rule less_le_trans [rotated])
  have r0: "0 \<le> r" by (rule order_trans [OF _ r(1)]) simp
  have S0: "0 \<le> S" by (rule order_trans [OF _ S(1)]) simp
  have "r * S \<le> 581337306462662 / 10^15 * (1720171199231676 / 10^15)"
    using S(2) r(2) r0 S0 by (intro mult_mono) auto
  moreover have "(581337306462662 / 10^15 * (1720171199231676 / 10^15) :: real) < 1 - 3.083835 / 10^7"
    by simp
  ultimately show "1 - 2 * student_t_sf x0 64 < 1 - 3.083835 / 10^7"
    unfolding eq by (rule le_less_trans)
qed

section \<open>The claims about the p-value\<close>

subsection \<open>Two-sided p-values\<close>

text \<open>
  Claim C1 (the code departs from it in the z-test cell). The claim is that a two-sided
  test returns twice the survival function at the absolute value of the statistic,
  under the t distribution and under the normal one. The t-test cell does: its
  p-value is \<open>2 * stats.t.sf(\<bar>statistic\<bar>, n - 1)\<close> for every input. The z-test cell
  returns twice the normal density, \<open>2 * stats.norm.pdf(\<bar>statistic\<bar>)\<close>. For a sample of
  65 values with mean 98.6, the hypothesised mean, and standard deviation 0.7 the
  statistic is 0; twice the survival function of a symmetric distribution is 1 there,
  which is what the t-test cell shows, and the z-test cell shows twice the density at
  0, a number below 0.798.
\<close>

theorem z_test_p_value_is_twice_the_density:
  "pValue (two_sided_t_test sf n m s mu0 alpha)
     = fl_twice (t_sf sf (np_abs (statistic (two_sided_t_test sf n m s mu0 alpha))) (int n - 1))
   \<and> pValue (two_sided_z_test n m s mu0 alpha)
     = fl_twice (norm_pdf (np_abs (statistic (two_sided_z_test n m s mu0 alpha))))
   \<and> statistic (two_sided_z_test 65 98.6 0.7 98.6 0.05) = Fin 0
   \<and> pValue (two_sided_z_test 65 98.6 0.7 98.6 0.05) = Fin (2 * norm_pdf_real 0)
   \<and> 2 * norm_pdf_real 0 < 0.798
   \<and> pValue (two_sided_t_test student_t_sf 65 98.6 0.7 98.6 0.05) = Fin 1"
proof -
  have z: "z_score 98.6 98.6 (err 0.7 65) = Fin 0"
    by (simp add: z_score_def err_def np_sqrt_def)
  have "2 * norm_pdf_real 0 < 0.798"
    using norm_pdf_peak_bounds(2) by (simp add: norm_pdf_real_0)
  then show ?thesis
    using z by (simp add: two_sided_z_test_def two_sided_t_test_def Let_def p_value_z_def
        p_value_t_def z_score_eq_t_score [symmetric] student_t_sf_0)
qed

subsection \<open>The normal p-value against the t p-value\<close>

lemma exp_minus_3_8_lower: "0.65 \<le> exp (- (3 / 8 :: real))"
proof -
  have "exp (3 / 8 :: real) \<le> 1 + 3 / 8 + (3 / 8)\<^sup>2"
    by (rule exp_bound) simp_all
  also have "\<dots> \<le> inverse 0.65"
    by (simp add: power2_eq_square)
  finally have "inverse (inverse (0.65 :: real)) \<le> inverse (exp (3 / 8 :: real))"
    by (intro le_imp_inverse_le) simp_all
  then show ?thesis by (simp add: exp_minus)
qed

lemma density_above_t_tail:
  "1 - sqrt 3 / sqrt 11 < 0.48" "0.5 < 2 * norm_pdf_real (sqrt 3 / 2)"
proof -
  have "(0.52 :: real)\<^sup>2 < 3 / 11" by (simp add: power2_eq_square)
  then have "0.52 < sqrt (3 / 11)" by (rule real_less_rsqrt)
  then show "1 - sqrt 3 / sqrt 11 < 0.48"
    by (simp add: real_sqrt_divide)
  have pos: "0 < sqrt (2 * pi)" by simp
  have "0.5 * sqrt (2 * pi) < 0.5 * 2.5068"
    using sqrt_two_pi_bounds(2) by simp
  also have "\<dots> < 2 * (0.65 :: real)" by simp
  also have "\<dots> \<le> 2 * exp (- (3 / 8 :: real))"
    using exp_minus_3_8_lower by simp
  finally have "0.5 * sqrt (2 * pi) < 2 * exp (- (3 / 8 :: real))" .
  moreover have "- (sqrt 3 / 2)\<^sup>2 / 2 = - (3 / 8 :: real)"
    by (simp add: power_divide)
  ultimately show "0.5 < 2 * norm_pdf_real (sqrt 3 / 2)"
    using pos unfolding norm_pdf_real_def by (simp add: field_simps)
qed

lemma small_sample_summary: "sample_summary [97.6, 99.6, 101.6] = Inr (3, 99.6, 2)"
proof -
  have "sum_list [97.6, 99.6, 101.6 :: real] / real (length [97.6, 99.6, 101.6 :: real]) = 99.6"
    by simp
  moreover have "(\<Sum>x\<leftarrow>[97.6, 99.6, 101.6 :: real]. (x - 99.6)\<^sup>2) = 8"
    by (simp add: power2_eq_square)
  moreover have "sqrt (8 / real (length [97.6, 99.6, 101.6 :: real] - 1)) = 2"
    using real_sqrt_abs [of 2] by simp
  moreover have "\<not> float_overflow \<le> 2"
    by (rule no_float_overflow) simp
  ultimately show ?thesis
    by (simp add: sample_summary_def mean_def stdev_def Let_def)
qed

lemma small_sample_score: "t_score 99.6 98.6 (err 2 3) = Fin (sqrt 3 / 2)"
  by (simp add: t_score_def err_def np_sqrt_def)

lemma small_sample_t: "2 * student_t_sf \<bar>sqrt 3 / 2\<bar> 2 = 1 - sqrt 3 / sqrt 11"
proof -
  have "sqrt (2 + (sqrt 3 / 2)\<^sup>2) = sqrt 11 / 2"
    using real_sqrt_abs [of 2] by (simp add: power_divide real_sqrt_divide)
  then show ?thesis
    by (simp add: student_t_sf_2)
qed

text \<open>
  Claim C4 (the code departs from it). The claim is that for one statistic the p-value
  under the normal distribution is strictly smaller than under Student's t. On the
  sample 97.6, 99.6, 101.6 against the hypothesised mean 98.6 the summary is \<open>n = 3\<close>,
  mean 99.6, standard deviation 2, and both cells compute the statistic \<open>sqrt 3 / 2\<close>.
  The t-test cell shows \<open>1 - sqrt 3 / sqrt 11\<close>, below 0.48; the z-test cell, which
  doubles the density, shows a p-value above 0.5.
\<close>

theorem normal_p_value_larger_on_small_sample:
  "notebook_t_test student_t_sf [97.6, 99.6, 101.6] 98.6 0.05
     = Inr \<lparr>statistic = Fin (sqrt 3 / 2), pValue = Fin (1 - sqrt 3 / sqrt 11), alpha_value = 0.05\<rparr>
   \<and> notebook_z_test [97.6, 99.6, 101.6] 98.6 0.05
     = Inr \<lparr>statistic = Fin (sqrt 3 / 2), pValue = Fin (2 * norm_pdf_real (sqrt 3 / 2)),
            alpha_value = 0.05\<rparr>
   \<and> 1 - sqrt 3 / sqrt 11 < 0.48 \<and> 0.5 < 2 * norm_pdf_real (sqrt 3 / 2)
   \<and> fl_less (Fin (1 - sqrt 3 / sqrt 11)) (Fin (2 * norm_pdf_real (sqrt 3 / 2)))"
proof -
  have t: "notebook_t_test student_t_sf [97.6, 99.6, 101.6] 98.6 0.05
     = Inr \<lparr>statistic = Fin (sqrt 3 / 2), pValue = Fin (1 - sqrt 3 / sqrt 11), alpha_value = 0.05\<rparr>"
    using small_sample_t small_sample_score small_sample_summary
    by (simp add: notebook_t_test_def two_sided_t_test_def Let_def p_value_t_def)
  have z: "notebook_z_test [97.6, 99.6, 101.6] 98.6 0.05
     = Inr \<lparr>statistic = Fin (sqrt 3 / 2), pValue = Fin (2 * norm_pdf_real (sqrt 3 / 2)),
            alpha_value = 0.05\<rparr>"
    using small_sample_score small_sample_summary
    by (simp add: notebook_z_test_def two_sided_z_test_def Let_def z_score_eq_t_score
        p_value_z_def)
  have "(0.48 :: real) < 0.5" by simp
  then have "1 - sqrt 3 / sqrt 11 < 2 * norm_pdf_real (sqrt 3 / 2)"
    using density_above_t_tail by (meson less_trans)
  then show ?thesis
    using t z density_above_t_tail by simp
qed

subsection \<open>The two scenarios of the notebook\<close>

lemma notebook_sf_bounds:
  "3.083835 / 10^7 < 2 * student_t_sf (0.49538461538461 * sqrt 65 / 0.6987557623265904) 64"
  "2 * student_t_sf (0.49538461538461 * sqrt 65 / 0.6987557623265904) 64 < 3.083845 / 10^7"
  using notebook_tail_product by simp_all

text \<open>
  Claim C5. On the summary of the notebook, \<open>n = 65\<close>, mean 98.10461538461539, standard
  deviation 0.6987557623265904, against the hypothesised mean 98.6 at \<open>alpha = 0.05\<close>, the
  two-sided t-test cell shows a statistic that rounds to -5.715757 and a p-value that
  rounds to 3.08384e-07, and the null hypothesis is rejected. (The output stored with
  the cell reads \<^verbatim>\<open>t-score: -5.715757\<close> and \<^verbatim>\<open>p-value: 3.083840e-07\<close>.)
\<close>

theorem notebook_two_sided_t_test:
  "fl_between (- 5.7157575)
     (statistic (two_sided_t_test student_t_sf 65 98.10461538461539 0.6987557623265904 98.6 0.05))
     (- 5.7157565)
   \<and> fl_between (3.083835 / 10^7)
     (pValue (two_sided_t_test student_t_sf 65 98.10461538461539 0.6987557623265904 98.6 0.05))
     (3.083845 / 10^7)
   \<and> reject (two_sided_t_test student_t_sf 65 98.10461538461539 0.6987557623265904 98.6 0.05)"
proof -
  define x0 :: real where "x0 = 0.49538461538461 * sqrt 65 / 0.6987557623265904"
  have x0: "5.7157565 < x0" "x0 < 5.7157575"
    unfolding x0_def by (rule notebook_score_bounds)+
  have p: "3.083835 / 10^7 < 2 * student_t_sf x0 64" "2 * student_t_sf x0 64 < 3.083845 / 10^7"
    unfolding x0_def by (rule notebook_sf_bounds)+
  have t: "t_score 98.10461538461539 98.6 (err 0.6987557623265904 65) = Fin (- x0)"
    unfolding x0_def by (rule notebook_score)
  have abs: "\<bar>x0\<bar> = x0" using x0(1) by simp
  have pv: "p_value_t student_t_sf (Fin (- x0)) 65 = Fin (2 * student_t_sf x0 64)"
    by (simp add: p_value_t_def abs)
  have "(3.083845 / 10^7 :: real) \<le> 0.05" by simp
  then have "2 * student_t_sf x0 64 \<le> 0.05" using p(2) by linarith
  moreover have "two_sided_t_test student_t_sf 65 98.10461538461539 0.6987557623265904 98.6 0.05
      = \<lparr>statistic = Fin (- x0), pValue = Fin (2 * student_t_sf x0 64), alpha_value = 0.05\<rparr>"
    unfolding two_sided_t_test_def Let_def t pv by (rule refl)
  ultimately show ?thesis
    using x0 p by (simp add: reject_def)
qed




subsection \<open>The decision\<close>



section \<open>Degenerate and invalid inputs\<close>

subsection \<open>A zero standard error\<close>

text \<open>With a zero standard deviation and the mean equal to the hypothesised mean the score is \<open>0 / 0\<close>.\<close>

lemma degenerate_score: "t_score m m (err 0 n) = NaN"
  by (cases "n = 0") (simp_all add: t_score_def err_def np_sqrt_def)

text \<open>
  Claim C7, as stated, fails where the standard deviation is 0 and the mean is the
  hypothesised mean, an input the claim counts as valid: for \<open>n = 10\<close>, mean 5,
  standard deviation 0 against 5 the p-value of the z-test cell is NaN, which is no
  number of the interval from 0 to 1.
\<close>

theorem degenerate_p_value_counterexample:
  "pValue (two_sided_z_test 10 5 0 5 0.05) = NaN
   \<and> \<not> is_probability (pValue (two_sided_z_test 10 5 0 5 0.05))"
  by (simp add: two_sided_z_test_def Let_def z_score_eq_t_score degenerate_score p_value_z_def)

text \<open>
  Whatever finite number \<open>b\<close> the standard error is, unless it is 0 while the mean is the
  hypothesised mean, the score is a number or an infinity and the four p-values are
  probabilities. This does not depend on how the quotient \<^verbatim>\<open>s/np.sqrt(n)\<close> is rounded.
\<close>

lemma score_cases:
  assumes "b \<noteq> 0 \<or> m \<noteq> mu0"
  shows "(\<exists>x. t_score m mu0 (Fin b) = Fin x) \<or> t_score m mu0 (Fin b) = PInf
         \<or> t_score m mu0 (Fin b) = MInf"
  using assms by (auto simp: t_score_def)

lemma p_values_are_probabilities:
  assumes "1 < n" and "b \<noteq> 0 \<or> m \<noteq> mu0"
  shows "is_probability (p_value_t student_t_sf (t_score m mu0 (Fin b)) n)
       \<and> is_probability (p_value_z (z_score m mu0 (Fin b)))
       \<and> is_probability (p_value_right student_t_sf (t_score m mu0 (Fin b)) n)
       \<and> is_probability (p_value_left student_t_sf (t_score m mu0 (Fin b)) n)"
proof -
  have df: "\<not> int n - 1 \<le> 0" and df1: "1 \<le> int n - 1"
    using assms(1) by simp_all
  have z: "0 \<le> 2 * norm_pdf_real x \<and> 2 * norm_pdf_real x \<le> 1" for x
  proof -
    have "2 * norm_pdf_real x \<le> 2 / sqrt (2 * pi)"
      using norm_pdf_real_le [of x] by simp
    then show ?thesis
      using norm_pdf_peak_bounds(2) norm_pdf_real_pos [of x] by simp
  qed
  have two: "0 \<le> 2 * student_t_sf \<bar>x\<bar> (int n - 1) \<and> 2 * student_t_sf \<bar>x\<bar> (int n - 1) \<le> 1" for x
    using student_t_sf_upper_half [of "\<bar>x\<bar>" "int n - 1"] df1 by simp
  have one: "0 \<le> student_t_sf x (int n - 1) \<and> student_t_sf x (int n - 1) \<le> 1" for x
    using student_t_sf_range [OF df1, of x] by simp
  from score_cases [OF assms(2)]
  show ?thesis
  proof (elim disjE exE)
    fix x assume "t_score m mu0 (Fin b) = Fin x"
    then show ?thesis
      using df z [of "\<bar>x\<bar>"] two [of x] one [of x] one [of "- x"]
      by (simp add: z_score_eq_t_score p_value_t_def p_value_z_def p_value_right_def
          p_value_left_def)
  next
    assume "t_score m mu0 (Fin b) = PInf"
    then show ?thesis
      using df
      by (simp add: z_score_eq_t_score p_value_t_def p_value_z_def p_value_right_def
          p_value_left_def)
  next
    assume "t_score m mu0 (Fin b) = MInf"
    then show ?thesis
      using df
      by (simp add: z_score_eq_t_score p_value_t_def p_value_z_def p_value_right_def
          p_value_left_def)
  qed
qed

text \<open>
  Claim C7, amended. For a sample of more than one value, unless the standard error is
  0 and the mean equals the hypothesised mean, the p-value of every cell is a finite
  number between 0 and 1, with the survival function of Student's t for
  \<^verbatim>\<open>stats.t.sf\<close>. (The exception is stated on the standard error \<^verbatim>\<open>err\<close>, the divisor
  of the score: over the reals it is 0 exactly when the standard deviation is; in
  doubles the quotient of a positive standard deviation can also be 0, and the score
  is NaN there as well when the mean is the hypothesised mean.)
\<close>

theorem p_value_is_probability:
  assumes "1 < n" and "err s n \<noteq> Fin 0 \<or> m \<noteq> mu0"
  shows "is_probability (pValue (two_sided_t_test student_t_sf n m s mu0 alpha))
       \<and> is_probability (pValue (two_sided_z_test n m s mu0 alpha))
       \<and> is_probability (pValue (right_tailed_t_test student_t_sf n m s mu0 alpha))
       \<and> is_probability (pValue (left_tailed_t_test student_t_sf n m s mu0 alpha))"
proof -
  have e: "err s n = Fin (s / sqrt (real n))"
    using assms(1) by (simp add: err_pos)
  have "s / sqrt (real n) \<noteq> 0 \<or> m \<noteq> mu0"
    using assms(2) unfolding e by simp
  from p_values_are_probabilities [OF assms(1) this]
  show ?thesis
    unfolding two_sided_t_test_def two_sided_z_test_def right_tailed_t_test_def
      left_tailed_t_test_def Let_def e
    by simp
qed

text \<open>
  Claim C7, amended, at a sample summary: \<open>n = 4\<close>, mean 3, standard deviation 2 against
  the hypothesised mean 1; the standard error is 1.
\<close>

theorem p_value_is_probability_witness:
  "(1::nat) < 4 \<and> err 2 4 = Fin 1 \<and> err 2 4 \<noteq> Fin 0
   \<and> is_probability (pValue (two_sided_t_test student_t_sf 4 3 2 1 0.05))
   \<and> is_probability (pValue (two_sided_z_test 4 3 2 1 0.05))
   \<and> is_probability (pValue (right_tailed_t_test student_t_sf 4 3 2 1 0.05))
   \<and> is_probability (pValue (left_tailed_t_test student_t_sf 4 3 2 1 0.05))"
  using p_value_is_probability [of 4 2 3 1 "0.05"] by (simp add: err_def np_sqrt_def)

text \<open>
  Claim C9, as stated, fails: for \<open>n = 10\<close>, mean 5, standard deviation 0 against the
  hypothesised mean 5 the statistic of the t-test cell is NaN, not 0, and the p-value
  is not 1.
\<close>

theorem degenerate_statistic_counterexample:
  "statistic (two_sided_t_test student_t_sf 10 5 0 5 0.05) = NaN
   \<and> statistic (two_sided_t_test student_t_sf 10 5 0 5 0.05) \<noteq> Fin 0
   \<and> pValue (two_sided_t_test student_t_sf 10 5 0 5 0.05) \<noteq> Fin 1"
  by (simp add: two_sided_t_test_def Let_def degenerate_score p_value_t_def)

text \<open>
  Claim C9, amended. For every input with standard deviation 0 and mean equal to the
  hypothesised mean the two-sided cells do not raise: the statistic is NaN, the
  p-value is NaN, and the null hypothesis is not rejected, since a comparison with NaN
  is false.
\<close>

theorem degenerate_statistic_is_nan:
  "statistic (two_sided_t_test sf n m 0 m alpha) = NaN
   \<and> pValue (two_sided_t_test sf n m 0 m alpha) = NaN
   \<and> \<not> reject (two_sided_t_test sf n m 0 m alpha)
   \<and> statistic (two_sided_z_test n m 0 m alpha) = NaN
   \<and> pValue (two_sided_z_test n m 0 m alpha) = NaN
   \<and> \<not> reject (two_sided_z_test n m 0 m alpha)"
  by (simp add: two_sided_t_test_def two_sided_z_test_def Let_def degenerate_score
      z_score_eq_t_score p_value_t_def p_value_z_def reject_def)

subsection \<open>What is checked\<close>

lemma sum_squares_nonneg: "0 \<le> (\<Sum>x\<leftarrow>xs. (x - c)\<^sup>2)" for c :: real
  by (rule sum_list_nonneg) auto

lemma sample_summary_cases:
  "sample_summary xs =
     (if length xs \<le> 1 then Inl StatisticsError
      else if float_overflow
              \<le> sqrt ((\<Sum>x\<leftarrow>xs. (x - sum_list xs / real (length xs))\<^sup>2) / real (length xs - 1))
      then Inl OverflowError
      else Inr (length xs, sum_list xs / real (length xs),
                sqrt ((\<Sum>x\<leftarrow>xs. (x - sum_list xs / real (length xs))\<^sup>2) / real (length xs - 1))))"
  by (cases xs) (auto simp: sample_summary_def mean_def stdev_def Let_def)

text \<open>
  A sample of two finite values on which \<^verbatim>\<open>stdev\<close> raises: the values \<open>\<plusminus> 3 \<cdot> 2^1022\<close>
  (about \<open>\<plusminus> 1.35e308\<close>) are doubles, and their standard deviation, \<open>3 \<cdot> 2^1022 \<cdot> sqrt 2\<close>,
  is above the largest double.
\<close>

lemma stdev_overflow: "stdev [3 * 2 ^ 1022, - (3 * 2 ^ 1022)] = Inl OverflowError"
proof -
  define a :: real where "a = 2 ^ 1022"
  have a: "0 < a" by (simp add: a_def)
  have v: "(\<Sum>x\<leftarrow>[3 * a, - (3 * a)]. (x - sum_list [3 * a, - (3 * a)] / real (length [3 * a, - (3 * a)]))\<^sup>2)
            / real (length [3 * a, - (3 * a)] - 1) = (3 * a)\<^sup>2 * 2"
    by (simp add: power2_eq_square)
  have "(4 * a)\<^sup>2 \<le> (3 * a)\<^sup>2 * 2"
    using a by (simp add: power2_eq_square)
  then have "4 * a \<le> sqrt ((3 * a)\<^sup>2 * 2)"
    using a by (intro real_le_rsqrt)
  moreover have "float_overflow < 4 * a"
    using float_overflow_bounds(2) unfolding a_def by simp
  ultimately have "float_overflow \<le> sqrt ((3 * a)\<^sup>2 * 2)"
    by linarith
  then have "stdev [3 * a, - (3 * a)] = Inl OverflowError"
    unfolding stdev_def Let_def v by simp
  then show ?thesis
    unfolding a_def .
qed

text \<open>
  Claim C8, as stated, fails: nothing checks \<open>alpha\<close> or the sign of the standard
  deviation. On the sample 97, 98, 99, whose summary is \<open>n = 3\<close>, mean 98, standard
  deviation 1, the z-test cell at \<open>alpha = 1.5\<close> returns a result, with 1.5 as its
  alpha-value; and on a summary with the standard deviation -2 it returns the
  statistic -2.
\<close>

theorem alpha_not_validated_counterexample:
  "sample_summary [97, 98, 99] = Inr (3, 98, 1)
   \<and> map_sum id alpha_value (notebook_z_test [97, 98, 99] 98.6 1.5) = Inr 1.5
   \<and> \<not> isl (notebook_z_test [97, 98, 99] 98.6 1.5)
   \<and> statistic (two_sided_z_test 4 3 (- 2) 1 0.05) = Fin (- 2)"
proof -
  have "\<not> float_overflow \<le> 1"
    by (rule no_float_overflow) simp
  then have s: "sample_summary [97, 98, 99] = Inr (3, 98, 1)"
    by (simp add: sample_summary_def mean_def stdev_def Let_def)
  have "statistic (two_sided_z_test 4 3 (- 2) 1 0.05) = Fin (- 2)"
    by (simp add: two_sided_z_test_def Let_def z_score_def err_def np_sqrt_def)
  then show ?thesis
    by (simp add: s notebook_z_test_def two_sided_z_test_def Let_def)
qed

text \<open>
  Claim C8, amended. The cells fail with the \<^verbatim>\<open>StatisticsError\<close> of \<^verbatim>\<open>mean\<close> or \<^verbatim>\<open>stdev\<close>
  exactly when the sample has at most one value, whatever \<open>alpha\<close> is. When the summary
  is computed, \<open>n\<close> is the length of the sample and is above 1, and the standard
  deviation is not negative and representable. (A sample of two or more values can
  fail in another way, as the one above does; none of these failures depends on
  \<open>alpha\<close>.)
\<close>

theorem statistics_error_iff_sample_too_small:
  "(notebook_t_test sf xs mu0 alpha = Inl StatisticsError \<longleftrightarrow> length xs \<le> 1)
   \<and> (notebook_z_test xs mu0 alpha = Inl StatisticsError \<longleftrightarrow> length xs \<le> 1)
   \<and> (notebook_right_tailed_test sf xs mu0 alpha = Inl StatisticsError \<longleftrightarrow> length xs \<le> 1)
   \<and> (case sample_summary xs of
        Inl e \<Rightarrow> (e = StatisticsError \<longleftrightarrow> length xs \<le> 1)
      | Inr (n, m, s) \<Rightarrow> n = length xs \<and> 1 < n \<and> 0 \<le> s \<and> s < float_overflow)"
  using sum_squares_nonneg [of "sum_list xs / real (length xs)" xs]
  by (simp add: sample_summary_cases notebook_t_test_def notebook_z_test_def
      notebook_right_tailed_test_def)

end
